theory Spec2Isabelle
  imports Complex_Main "HOL-Library.Sublist"
begin

section \<open>JavaScript values\<close>

text \<open>
  The values \<^verbatim>\<open>validator.js\<close> inspects. A document decoded by \<^verbatim>\<open>res.json()\<close> is built
  from \<open>JNull\<close>, \<open>JBoolean\<close>, \<open>JNumber\<close>, \<open>JString\<close>, \<open>JArray\<close> and \<open>JObject\<close>; the exported
  \<^verbatim>\<open>validateAgainstSchema\<close> can be handed any value, so the remaining kinds that
  \<^verbatim>\<open>typeof\<close> tells apart are constructors too. The validator never looks at the value of a
  number, a bigint, a symbol or a function. An object is the list of its own enumerable
  properties in the order \<^verbatim>\<open>Object.entries\<close> yields them; its prototype is
  \<^verbatim>\<open>Object.prototype\<close>, as for every object \<^verbatim>\<open>JSON.parse\<close> builds.
\<close>

datatype jsval =
    JNull
  | JUndefined
  | JBoolean bool
  | JNumber real
  | JBigInt int
  | JString string
  | JSymbol string
  | JFunction
  | JArray "jsval list"
  | JObject "(string \<times> jsval) list"

text \<open>The language's \<^verbatim>\<open>typeof\<close> operator and \<^verbatim>\<open>Array.isArray\<close>.\<close>

fun typeof :: "jsval \<Rightarrow> string" where
  "typeof JNull = ''object''"
| "typeof JUndefined = ''undefined''"
| "typeof (JBoolean b) = ''boolean''"
| "typeof (JNumber n) = ''number''"
| "typeof (JBigInt n) = ''bigint''"
| "typeof (JString s) = ''string''"
| "typeof (JSymbol d) = ''symbol''"
| "typeof JFunction = ''function''"
| "typeof (JArray xs) = ''object''"
| "typeof (JObject kvs) = ''object''"

fun isArray :: "jsval \<Rightarrow> bool" where
  "isArray (JArray xs) = True"
| "isArray v = False"

text \<open>
  \<^verbatim>\<open>function typeOf(v) { if (v === null) return 'null';
     if (Array.isArray(v)) return 'array'; return typeof v; }\<close>
\<close>

definition typeOf :: "jsval \<Rightarrow> string" where
  "typeOf v = (if v = JNull then ''null'' else if isArray v then ''array'' else typeof v)"

text \<open>
  \<^verbatim>\<open>Object.entries(data || {})\<close> and \<^verbatim>\<open>(data || [])\<close>. Both are evaluated only behind the
  type test, where \<open>data\<close> is an object, respectively an array (lemmas \<open>typeOf_object\<close> and
  \<open>typeOf_array\<close> below); \<^verbatim>\<open>null\<close> and \<^verbatim>\<open>undefined\<close> would give the empty collection.
\<close>

definition entriesOf :: "jsval \<Rightarrow> (string \<times> jsval) list" where
  "entriesOf v = (case v of JObject kvs \<Rightarrow> kvs | _ \<Rightarrow> [])"

definition elementsOf :: "jsval \<Rightarrow> jsval list" where
  "elementsOf v = (case v of JArray xs \<Rightarrow> xs | _ \<Rightarrow> [])"

definition stringOf :: "jsval \<Rightarrow> string" where
  "stringOf v = (case v of JString s \<Rightarrow> s | _ \<Rightarrow> [])"

text \<open>
  The \<^verbatim>\<open>in\<close> operator, \<^verbatim>\<open>k in (data || {})\<close>: true for an own property and for every
  property the object inherits. A plain object inherits the members of
  \<^verbatim>\<open>Object.prototype\<close>.
\<close>

definition Object_prototype_keys :: "string list" where
  "Object_prototype_keys =
     [''constructor'', ''__defineGetter__'', ''__defineSetter__'', ''hasOwnProperty'',
      ''__lookupGetter__'', ''__lookupSetter__'', ''isPrototypeOf'',
      ''propertyIsEnumerable'', ''toString'', ''valueOf'', ''__proto__'',
      ''toLocaleString'']"

definition js_in :: "string \<Rightarrow> jsval \<Rightarrow> bool" where
  "js_in k data = (k \<in> set (map fst (entriesOf data)) \<or> k \<in> set Object_prototype_keys)"

text \<open>Decimal rendering of an index or a count inside a template literal.\<close>

fun decimal :: "nat \<Rightarrow> string" where
  "decimal n = (if 10 \<le> n then decimal (n div 10) else []) @ [''0123456789'' ! (n mod 10)]"

declare decimal.simps [simp del]

text \<open>The same for a number that may be negative (\<^verbatim>\<open>schema.minItems\<close>).\<close>

definition decimal_int :: "int \<Rightarrow> string" where
  "decimal_int i = (if 0 \<le> i then decimal (nat i) else CHR ''-'' # decimal (nat (- i)))"

text \<open>
  The text of a number in a template literal (\<^verbatim>\<open>${schema.minItems}\<close>). Up to
  \<open>2 ^ 53\<close> in magnitude every integer is a number of the language and is printed with
  all its digits; beyond, the language prints the shortest digits that identify the
  nearest double (exponent notation from \<open>10 ^ 21\<close>), which is left to the host.
\<close>

definition number_text :: "(int \<Rightarrow> string) \<Rightarrow> int \<Rightarrow> string" where
  "number_text beyond n = (if \<bar>n\<bar> \<le> 2 ^ 53 then decimal_int n else beyond n)"

definition dquote :: string where
  "dquote = [CHR 0x22]"

text \<open>The arrow U+2192 of the \<^verbatim>\<open>anyOf\<close> warnings, as its three UTF-8 bytes.\<close>

definition arrow :: string where
  "arrow = [CHR 0xE2, CHR 0x86, CHR 0x92]"

section \<open>Schemas, hooks and results\<close>

text \<open>
  A \<^verbatim>\<open>custom\<close> hook is caller code: it is run on the node's data, in a world \<open>'w\<close> that
  stands for whatever state the hook can read and write, and either returns a value or
  throws. The \<^verbatim>\<open>catch\<close> block reads nothing of a thrown value but \<^verbatim>\<open>e.message\<close>, inside
  a template literal: \<open>Thrown m\<close> is a value for which that renders to the text \<open>m\<close> (an
  \<^verbatim>\<open>Error\<close> with message \<open>m\<close>), and \<open>Thrown_unreadable\<close> is a value on which reading
  \<^verbatim>\<open>e.message\<close> itself raises (\<^verbatim>\<open>throw null\<close>, \<^verbatim>\<open>throw undefined\<close>). The data is a value: a
  hook does not change it.
\<close>

datatype thrown = Thrown string | Thrown_unreadable

datatype hook_outcome = Returns jsval | Throws thrown

text \<open>
  A schema is an object with the optional fields the validator reads. \<open>None\<close> is an absent
  field. \<^verbatim>\<open>properties\<close> is the list of the entries of that object, looked up by key;
  \<^verbatim>\<open>minItems\<close> is an integer.
\<close>

datatype 'w schema = Schema
  (anyOf: "'w schema list option")
  (type: "string option")
  (properties: "(string \<times> 'w schema) list option")
  (required: "string list option")
  (items: "'w schema option")
  (minItems: "int option")
  (pattern: "string option")
  (custom: "(jsval \<Rightarrow> 'w \<Rightarrow> hook_outcome \<times> 'w) option")

text \<open>The schema \<^verbatim>\<open>{}\<close>, the default of \<^verbatim>\<open>schema.items || {}\<close>.\<close>

definition empty_schema :: "'w schema" where
  "empty_schema = Schema None None None None None None None None"

text \<open>Truthiness of an optional string field: present and not the empty string.\<close>

definition truthy :: "string option \<Rightarrow> bool" where
  "truthy s = (case s of None \<Rightarrow> False | Some x \<Rightarrow> x \<noteq> [])"

datatype js_error = SyntaxError string | TypeError string | Error string

fun message :: "js_error \<Rightarrow> string" where
  "message (SyntaxError m) = m"
| "message (TypeError m) = m"
| "message (Error m) = m"

text \<open>
  What the validator takes from the host. \<^verbatim>\<open>new RegExp(pattern)\<close> either raises a
  \<^verbatim>\<open>SyntaxError\<close> (\<open>None\<close>) or gives a matcher, whose \<^verbatim>\<open>test\<close> is the function returned.
  \<open>big_number_text\<close> is the text a template literal gives for an integer beyond the safe
  range (see \<open>number_text\<close> above).
\<close>

record host =
  RegExp :: "string \<Rightarrow> (string \<Rightarrow> bool) option"
  big_number_text :: "int \<Rightarrow> string"

record result =
  errors :: "string list"
  warnings :: "string list"

definition no_messages :: result where
  "no_messages = \<lparr>errors = [], warnings = []\<rparr>"

text \<open>
  \<^verbatim>\<open>const addE = (msg) => errors.push(path ? `${path}: ${msg}` : msg);\<close> and its twin
  \<^verbatim>\<open>addW\<close>; \<^verbatim>\<open>errors.push(...e2); warnings.push(...w2);\<close> is \<open>push_all\<close>.
\<close>

definition prefixed :: "string \<Rightarrow> string \<Rightarrow> string" where
  "prefixed path msg = (if path \<noteq> [] then path @ '': '' @ msg else msg)"

definition addE :: "string \<Rightarrow> string \<Rightarrow> result \<Rightarrow> result" where
  "addE path msg r = r\<lparr>errors := errors r @ [prefixed path msg]\<rparr>"

definition addW :: "string \<Rightarrow> string \<Rightarrow> result \<Rightarrow> result" where
  "addW path msg r = r\<lparr>warnings := warnings r @ [prefixed path msg]\<rparr>"

definition push_all :: "result \<Rightarrow> result \<Rightarrow> result" where
  "push_all r r2 = \<lparr>errors = errors r @ errors r2, warnings = warnings r @ warnings r2\<rparr>"

section \<open>The schema matcher\<close>

text \<open>
  \<^verbatim>\<open>req.forEach((k) => { if (!(k in (data || {}))) addE(`Missing required key "${k}".`); });\<close>
\<close>

definition required_forEach :: "string list \<Rightarrow> jsval \<Rightarrow> string \<Rightarrow> result \<Rightarrow> result" where
  "required_forEach req data path r =
     foldl (\<lambda>acc k. if \<not> js_in k data
                      then addE path (''Missing required key '' @ dquote @ k @ dquote @ ''.'') acc
                      else acc) r req"

text \<open>
  \<^verbatim>\<open>if (schema.custom && typeof schema.custom === 'function') {
     try { const msg = schema.custom(data); if (typeof msg === 'string' && msg) addE(msg); }
     catch (e) { addE(`Custom validator threw: ${e.message}`); } }\<close>
\<close>

definition run_custom ::
  "(jsval \<Rightarrow> 'w \<Rightarrow> hook_outcome \<times> 'w) option \<Rightarrow> jsval \<Rightarrow> string \<Rightarrow> result \<Rightarrow> 'w
     \<Rightarrow> (js_error + result) \<times> 'w" where
  "run_custom c data path r w =
     (case c of
        None \<Rightarrow> (Inr r, w)
      | Some hook \<Rightarrow>
          (case hook data w of
             (Returns msg, w') \<Rightarrow>
               (if typeof msg = ''string'' \<and> stringOf msg \<noteq> []
                then (Inr (addE path (stringOf msg) r), w')
                else (Inr r, w'))
           | (Throws (Thrown m), w') \<Rightarrow>
               (Inr (addE path (''Custom validator threw: '' @ m) r), w')
           | (Throws Thrown_unreadable, w') \<Rightarrow>
               (Inl (TypeError ''Cannot read properties (reading 'message')''), w')))"

text \<open>
  \<^verbatim>\<open>results.forEach((r, i) => r.errors.forEach((e) => addW(`anyOf[${i}] \<rightarrow> ${e}`)));\<close>
\<close>

definition anyOf_warnings :: "string \<Rightarrow> result list \<Rightarrow> result \<Rightarrow> result" where
  "anyOf_warnings path results r =
     foldl (\<lambda>acc (i, res).
              foldl (\<lambda>acc' e.
                       addW path (''anyOf['' @ decimal i @ ''] '' @ arrow @ '' '' @ e) acc')
                    acc (errors res))
           r (enumerate 0 results)"

text \<open>
  \<^verbatim>\<open>if (schema.minItems != null && (data || []).length < schema.minItems)
     addE(`Array has ${(data || []).length} items; expected at least ${schema.minItems}.`);\<close>
\<close>

definition minItems_check :: "host \<Rightarrow> int option \<Rightarrow> jsval \<Rightarrow> string \<Rightarrow> result \<Rightarrow> result" where
  "minItems_check host m data path r =
     (case m of
        None \<Rightarrow> r
      | Some n \<Rightarrow>
          if int (length (elementsOf data)) < n
          then addE path (''Array has '' @ decimal (length (elementsOf data))
                          @ '' items; expected at least ''
                          @ number_text (big_number_text host) n @ ''.'') r
          else r)"

text \<open>
  \<^verbatim>\<open>validateAgainstSchema(data, schema, path)\<close>, with the world threaded through the hook
  calls in the order the source makes them and a raise (\<open>Inl\<close>) ending the call at once.
  The three loops of the source are the three list recursions: \<open>anyOf_map\<close> is
  \<^verbatim>\<open>schema.anyOf.map((s) => validateAgainstSchema(data, s, path))\<close>, \<open>entries_loop\<close> is the
  \<^verbatim>\<open>for (const [k, v] of Object.entries(data || {}))\<close> loop and \<open>items_forEach\<close> is
  \<^verbatim>\<open>(data || []).forEach((item, i) => ...)\<close>; the last two return what they pushed.
  The tests \<^verbatim>\<open>schema.type === 'object'\<close>, \<^verbatim>\<open>=== 'array'\<close> and \<^verbatim>\<open>=== 'string'\<close> exclude one
  another, so the three \<^verbatim>\<open>if\<close> statements of the source are one chain here.

  \<^verbatim>\<open>results.find\<close> cannot come back empty after \<^verbatim>\<open>results.some\<close> has succeeded; the row
  for it is what reading \<^verbatim>\<open>firstOK.warnings\<close> would do. \<^verbatim>\<open>props[k]\<close> is the lookup in the
  entries of \<^verbatim>\<open>properties\<close>: for a key that \<^verbatim>\<open>props\<close> only inherits, the source goes on
  with a member of \<^verbatim>\<open>Object.prototype\<close> as the child schema, which has none of the fields
  the validator reads and so adds nothing, as skipping the key does.
\<close>

function (sequential)
  validateAgainstSchema ::
    "host \<Rightarrow> jsval \<Rightarrow> 'w schema \<Rightarrow> string \<Rightarrow> 'w \<Rightarrow> (js_error + result) \<times> 'w"
  and anyOf_map ::
    "host \<Rightarrow> jsval \<Rightarrow> 'w schema list \<Rightarrow> string \<Rightarrow> 'w
       \<Rightarrow> (js_error + result list) \<times> 'w"
  and entries_loop ::
    "host \<Rightarrow> (string \<times> 'w schema) list \<Rightarrow> (string \<times> jsval) list \<Rightarrow> string \<Rightarrow> 'w
       \<Rightarrow> (js_error + result) \<times> 'w"
  and items_forEach ::
    "host \<Rightarrow> 'w schema \<Rightarrow> jsval list \<Rightarrow> string \<Rightarrow> nat \<Rightarrow> 'w
       \<Rightarrow> (js_error + result) \<times> 'w"
where
  "validateAgainstSchema host data schema path w =
     (case anyOf schema of
        Some alts \<Rightarrow>
          (case anyOf_map host data alts path w of
             (Inl e, w') \<Rightarrow> (Inl e, w')
           | (Inr results, w') \<Rightarrow>
               if \<not> list_ex (\<lambda>r. errors r = []) results
               then (Inr (anyOf_warnings path results
                            (addE path ''Value must match one of the allowed shapes.''
                               no_messages)), w')
               else (case find (\<lambda>r. errors r = []) results of
                       None \<Rightarrow> (Inl (TypeError ''firstOK is undefined''), w')
                     | Some firstOK \<Rightarrow>
                         (Inr (no_messages\<lparr>warnings := warnings firstOK\<rparr>), w')))
      | None \<Rightarrow>
          (let t = typeOf data in
           if truthy (type schema) \<and> type schema \<noteq> Some t
           then (Inr (addE path (''Expected type '' @ dquote @ the (type schema) @ dquote
                                 @ '' but got '' @ dquote @ t @ dquote @ ''.'')
                        no_messages), w)
           else if type schema = Some ''object''
           then (case entries_loop host (case properties schema of None \<Rightarrow> [] | Some ps \<Rightarrow> ps)
                        (entriesOf data) path w of
                   (Inl e, w') \<Rightarrow> (Inl e, w')
                 | (Inr children, w') \<Rightarrow>
                     run_custom (custom schema) data path
                       (push_all
                          (required_forEach
                             (case required schema of None \<Rightarrow> [] | Some ks \<Rightarrow> ks)
                             data path no_messages)
                          children) w')
           else if type schema = Some ''array''
           then (case items_forEach host
                        (case items schema of None \<Rightarrow> empty_schema | Some s \<Rightarrow> s)
                        (elementsOf data) path 0 w of
                   (Inl e, w') \<Rightarrow> (Inl e, w')
                 | (Inr children, w') \<Rightarrow>
                     (Inr (minItems_check host (minItems schema) data path children), w'))
           else if type schema = Some ''string'' \<and> truthy (pattern schema)
           then (case RegExp host (the (pattern schema)) of
                   None \<Rightarrow> (Inl (SyntaxError (the (pattern schema))), w)
                 | Some re \<Rightarrow>
                     (Inr (if \<not> re (stringOf data)
                           then addE path (''String does not match pattern ''
                                           @ the (pattern schema) @ ''.'') no_messages
                           else no_messages), w))
           else (Inr no_messages, w)))"
| "anyOf_map host data [] path w = (Inr [], w)"
| "anyOf_map host data (s # rest) path w =
     (case validateAgainstSchema host data s path w of
        (Inl e, w') \<Rightarrow> (Inl e, w')
      | (Inr r, w') \<Rightarrow>
          (case anyOf_map host data rest path w' of
             (Inl e, w'') \<Rightarrow> (Inl e, w'')
           | (Inr rs, w'') \<Rightarrow> (Inr (r # rs), w'')))"
| "entries_loop host props [] path w = (Inr no_messages, w)"
| "entries_loop host props ((k, v) # rest) path w =
     (case map_of props k of
        None \<Rightarrow> entries_loop host props rest path w
      | Some childSchema \<Rightarrow>
          (case validateAgainstSchema host v childSchema
                  (if path \<noteq> [] then path @ ''.'' @ k else k) w of
             (Inl e, w') \<Rightarrow> (Inl e, w')
           | (Inr r2, w') \<Rightarrow>
               (case entries_loop host props rest path w' of
                  (Inl e, w'') \<Rightarrow> (Inl e, w'')
                | (Inr r, w'') \<Rightarrow> (Inr (push_all r2 r), w''))))"
| "items_forEach host itemSchema [] path i w = (Inr no_messages, w)"
| "items_forEach host itemSchema (item # rest) path i w =
     (case validateAgainstSchema host item itemSchema
             (path @ ''['' @ decimal i @ '']'') w of
        (Inl e, w') \<Rightarrow> (Inl e, w')
      | (Inr r2, w') \<Rightarrow>
          (case items_forEach host itemSchema rest path (Suc i) w' of
             (Inl e, w'') \<Rightarrow> (Inl e, w'')
           | (Inr r, w'') \<Rightarrow> (Inr (push_all r2 r), w'')))"
  by pat_completeness auto

termination
proof -
  have smaller: "size_list size alts < size s" if "anyOf s = Some alts"
    for s :: "'w schema" and alts
    using that by (cases s) auto
  show ?thesis
    by (relation "measures
          [\<lambda>x. case x of
             Inl (Inl (host, data, schema, path, w)) \<Rightarrow> Suc (2 * size data)
           | Inl (Inr (host, data, alts, path, w)) \<Rightarrow> Suc (2 * size data)
           | Inr (Inl (host, props, kvs, path, w)) \<Rightarrow>
               2 * size_list (size_prod (\<lambda>k. 0) size) kvs
           | Inr (Inr (host, itemSchema, xs, path, i, w)) \<Rightarrow> 2 * size_list size xs,
           \<lambda>x. case x of
             Inl (Inl (host, data, schema, path, w)) \<Rightarrow> Suc (size schema)
           | Inl (Inr (host, data, alts, path, w)) \<Rightarrow> Suc (size_list size alts)
           | Inr y \<Rightarrow> 0]")
       (auto simp: entriesOf_def elementsOf_def smaller split: jsval.splits)
qed

declare validateAgainstSchema.simps [simp del]

section \<open>Hooks without side effects\<close>

text \<open>
  A hook is pure when its outcome depends on the data alone and it leaves the world as
  it found it; \<open>pure_hooks\<close> asks that of every hook in a schema.
\<close>

definition pure_hook :: "(jsval \<Rightarrow> 'w \<Rightarrow> hook_outcome \<times> 'w) \<Rightarrow> bool" where
  "pure_hook h = (\<forall>d w w'. h d w = (fst (h d w'), w))"

fun pure_hooks :: "'w schema \<Rightarrow> bool" where
  "pure_hooks (Schema a t p r i m pat c) =
     ((case c of None \<Rightarrow> True | Some h \<Rightarrow> pure_hook h) \<and>
      (case a of None \<Rightarrow> True | Some alts \<Rightarrow> \<forall>s \<in> set alts. pure_hooks s) \<and>
      (case p of None \<Rightarrow> True | Some ps \<Rightarrow> \<forall>s \<in> snd ` set ps. pure_hooks s) \<and>
      (case i of None \<Rightarrow> True | Some s \<Rightarrow> pure_hooks s))"

section \<open>Presenting the result and orchestrating a load\<close>

text \<open>
  What \<^verbatim>\<open>showValidationPanel\<close> and \<^verbatim>\<open>validateAndRender\<close> do to the page, the console
  and the caller is kept as the list of these events, in order. The markup of the panel
  is a function of the file name, the errors and the warnings, which the event carries.
\<close>

datatype event =
    Prepend_panel string "string list" "string list"
  | Console_error_list string "string list"
  | Console_warn_list string "string list"
  | Console_error js_error
  | Set_innerHTML string string
  | Render jsval

definition showValidationPanel :: "string \<Rightarrow> string list \<Rightarrow> string list \<Rightarrow> event list" where
  "showValidationPanel fileName errs warns =
     [Prepend_panel fileName errs warns]
     @ (if errs \<noteq> [] then [Console_error_list (''[JSON VALIDATION] '' @ fileName) errs] else [])
     @ (if warns \<noteq> [] then [Console_warn_list (''[JSON VALIDATION] '' @ fileName) warns] else [])"

text \<open>
  A response of \<^verbatim>\<open>fetch\<close>: its \<^verbatim>\<open>ok\<close> flag, its status and what \<^verbatim>\<open>res.json()\<close>
  settles to. \<^verbatim>\<open>fetch\<close> itself may reject (\<open>Inl\<close>).
\<close>

datatype response = Response (ok: bool) (status: nat) (json: "js_error + jsval")

text \<open>\<^verbatim>\<open>url.replace(/\.json$/, '')\<close>\<close>

definition strip_json :: "string \<Rightarrow> string" where
  "strip_json u =
     (if drop (length u - 5) u = ''.json'' then take (length u - 5) u else u)"

text \<open>
  \<^verbatim>\<open>if (mountOnErrorId) { const mount = document.getElementById(mountOnErrorId);
     if (mount) mount.innerHTML = ...; }\<close>
\<close>

definition set_mount :: "(string \<Rightarrow> bool) \<Rightarrow> string option \<Rightarrow> string \<Rightarrow> event list" where
  "set_mount getElementById mountOnErrorId html =
     (if truthy mountOnErrorId \<and> getElementById (the mountOnErrorId)
      then [Set_innerHTML (the mountOnErrorId) html] else [])"

text \<open>The \<^verbatim>\<open>catch (e)\<close> block of \<^verbatim>\<open>validateAndRender\<close>.\<close>

definition on_failure ::
  "(string \<Rightarrow> bool) \<Rightarrow> string \<Rightarrow> string option \<Rightarrow> js_error \<Rightarrow> event list" where
  "on_failure getElementById url mountOnErrorId e =
     Console_error e
     # set_mount getElementById mountOnErrorId
         (''<div class='' @ dquote @ ''bg-red-100 text-red-700 p-4 rounded'' @ dquote
          @ ''>Failed to load <b>'' @ url @ ''</b>: '' @ message e @ ''</div>'')"

text \<open>
  \<^verbatim>\<open>async function validateAndRender({ url, schema, mountOnErrorId, render })\<close>. The
  host's \<^verbatim>\<open>fetch\<close> and \<^verbatim>\<open>document.getElementById\<close> are parameters; \<open>render\<close> is caller
  code that runs in the world and may fail (\<open>Some\<close>).
\<close>

definition validateAndRender ::
  "host \<Rightarrow> (string \<Rightarrow> js_error + response) \<Rightarrow> (string \<Rightarrow> bool)
     \<Rightarrow> string \<Rightarrow> 'w schema \<Rightarrow> string option \<Rightarrow> (jsval \<Rightarrow> 'w \<Rightarrow> js_error option \<times> 'w)
     \<Rightarrow> 'w \<Rightarrow> event list \<times> 'w" where
  "validateAndRender host fetch getElementById url schema mountOnErrorId render w =
     (case fetch url of
        Inl e \<Rightarrow> (on_failure getElementById url mountOnErrorId e, w)
      | Inr res \<Rightarrow>
          if \<not> ok res
          then (on_failure getElementById url mountOnErrorId
                  (Error (url @ '' HTTP '' @ decimal (status res))), w)
          else
            (case json res of
               Inl e \<Rightarrow> (on_failure getElementById url mountOnErrorId e, w)
             | Inr decoded \<Rightarrow>
                 (case validateAgainstSchema host decoded schema (strip_json url) w of
                    (Inl e, w') \<Rightarrow> (on_failure getElementById url mountOnErrorId e, w')
                  | (Inr r, w') \<Rightarrow>
                      if errors r \<noteq> []
                      then (showValidationPanel url (errors r) (warnings r)
                            @ set_mount getElementById mountOnErrorId
                                (''<div class='' @ dquote
                                 @ ''bg-red-100 text-red-700 p-4 rounded'' @ dquote
                                 @ ''>Validation failed for <b>'' @ url
                                 @ ''</b>. See details above.</div>''), w')
                      else
                        (case render decoded w' of
                           (None, w'') \<Rightarrow>
                             (showValidationPanel url (errors r) (warnings r)
                              @ [Render decoded], w'')
                         | (Some e, w'') \<Rightarrow>
                             (showValidationPanel url (errors r) (warnings r)
                              @ [Render decoded]
                              @ on_failure getElementById url mountOnErrorId e, w'')))))"

text \<open>The arguments of the calls of the render callback, in order.\<close>

fun render_calls :: "event list \<Rightarrow> jsval list" where
  "render_calls [] = []"
| "render_calls (Render v # es) = v # render_calls es"
| "render_calls (e # es) = render_calls es"

section \<open>Sample inputs\<close>

text \<open>
  Concrete schemas, hooks and hosts on which the theorems below are run: a host in
  which no pattern compiles (and whose text for integers beyond the safe range, never
  asked for below, is empty); a hook that remembers in the world (a call counter) whether
  it has been called before, one that throws, and one that only looks at its data; a
  server that knows one document, a callback and a page without elements.
\<close>

definition sample_host :: host where
  "sample_host = \<lparr>RegExp = (\<lambda>p. None), big_number_text = (\<lambda>n. [])\<rparr>"

definition counting_hook :: "jsval \<Rightarrow> nat \<Rightarrow> hook_outcome \<times> nat" where
  "counting_hook d n =
     (if n = 0 then Returns JUndefined else Returns (JString ''seen before''), Suc n)"

definition throwing_hook :: "jsval \<Rightarrow> nat \<Rightarrow> hook_outcome \<times> nat" where
  "throwing_hook d n = (Throws (Thrown ''boom''), Suc n)"

definition throwing_null_hook :: "jsval \<Rightarrow> nat \<Rightarrow> hook_outcome \<times> nat" where
  "throwing_null_hook d n = (Throws Thrown_unreadable, Suc n)"

definition name_hook :: "jsval \<Rightarrow> 'w \<Rightarrow> hook_outcome \<times> 'w" where
  "name_hook d w =
     (if ''name'' \<in> set (map fst (entriesOf d)) then Returns JUndefined
      else Returns (JString ''a name is needed''), w)"

definition string_schema :: "'w schema" where
  "string_schema = Schema None (Some ''string'') None None None None None None"

definition number_schema :: "'w schema" where
  "number_schema = Schema None (Some ''number'') None None None None None None"

definition tags_schema :: "'w schema" where
  "tags_schema =
     Schema None (Some ''object'')
       (Some [(''tags'',
               Schema None (Some ''array'') None None
                 (Some (Schema (Some [string_schema, number_schema]) None None None None None
                          None None))
                 (Some 2) None None)])
       (Some [''id'']) None None None None"

definition sample_fetch :: "string \<Rightarrow> js_error + response" where
  "sample_fetch u =
     (if u = ''data/team.json''
      then Inr (Response True 200 (Inr (JObject [(''name'', JString ''Ann'')])))
      else Inr (Response False 404 (Inl (SyntaxError ''Unexpected end of JSON input''))))"

definition sample_render :: "jsval \<Rightarrow> nat \<Rightarrow> js_error option \<times> nat" where
  "sample_render v n = (None, Suc n)"

definition no_element :: "string \<Rightarrow> bool" where
  "no_element i = False"

section \<open>Basic facts\<close>

lemma errors_addE [simp]: "errors (addE p m r) = errors r @ [prefixed p m]"
  by (simp add: addE_def)

lemma warnings_addE [simp]: "warnings (addE p m r) = warnings r"
  by (simp add: addE_def)

lemma errors_addW [simp]: "errors (addW p m r) = errors r"
  by (simp add: addW_def)

lemma warnings_addW [simp]: "warnings (addW p m r) = warnings r @ [prefixed p m]"
  by (simp add: addW_def)

lemma errors_push_all [simp]: "errors (push_all r r2) = errors r @ errors r2"
  by (simp add: push_all_def)

lemma warnings_push_all [simp]: "warnings (push_all r r2) = warnings r @ warnings r2"
  by (simp add: push_all_def)

lemma errors_no_messages [simp]: "errors no_messages = []"
  by (simp add: no_messages_def)

lemma warnings_no_messages [simp]: "warnings no_messages = []"
  by (simp add: no_messages_def)

lemma result_eq_iff: "(r = r') = (errors r = errors r' \<and> warnings r = warnings r')"
  for r r' :: result
  by auto

text \<open>
  Behind the type test the data has the shape the rule reads: the catch-all rows of
  \<open>entriesOf\<close>, \<open>elementsOf\<close> and \<open>stringOf\<close> are never reached.
\<close>

lemma typeOf_object: "typeOf d = ''object'' \<longleftrightarrow> (\<exists>kvs. d = JObject kvs)"
  by (cases d) (auto simp: typeOf_def)

lemma typeOf_array: "typeOf d = ''array'' \<longleftrightarrow> (\<exists>xs. d = JArray xs)"
  by (cases d) (auto simp: typeOf_def)

lemma typeOf_string: "typeOf d = ''string'' \<longleftrightarrow> (\<exists>s. d = JString s)"
  by (cases d) (auto simp: typeOf_def)

text \<open>The matcher, rule by rule.\<close>

lemma validate_anyOf:
  "anyOf schema = Some alts \<Longrightarrow>
   validateAgainstSchema host data schema path w =
     (case anyOf_map host data alts path w of
        (Inl e, w') \<Rightarrow> (Inl e, w')
      | (Inr results, w') \<Rightarrow>
          if \<not> list_ex (\<lambda>r. errors r = []) results
          then (Inr (anyOf_warnings path results
                       (addE path ''Value must match one of the allowed shapes.''
                          no_messages)), w')
          else (case find (\<lambda>r. errors r = []) results of
                  None \<Rightarrow> (Inl (TypeError ''firstOK is undefined''), w')
                | Some firstOK \<Rightarrow> (Inr (no_messages\<lparr>warnings := warnings firstOK\<rparr>), w')))"
  by (simp add: validateAgainstSchema.simps)

lemma validate_mismatch:
  "anyOf schema = None \<Longrightarrow> truthy (type schema) \<Longrightarrow> type schema \<noteq> Some (typeOf data) \<Longrightarrow>
   validateAgainstSchema host data schema path w =
     (Inr (addE path (''Expected type '' @ dquote @ the (type schema) @ dquote
                      @ '' but got '' @ dquote @ typeOf data @ dquote @ ''.'')
             no_messages), w)"
  by (simp add: validateAgainstSchema.simps)

lemma validate_object:
  "anyOf schema = None \<Longrightarrow> type schema = Some ''object'' \<Longrightarrow> typeOf data = ''object'' \<Longrightarrow>
   validateAgainstSchema host data schema path w =
     (case entries_loop host (case properties schema of None \<Rightarrow> [] | Some ps \<Rightarrow> ps)
             (entriesOf data) path w of
        (Inl e, w') \<Rightarrow> (Inl e, w')
      | (Inr children, w') \<Rightarrow>
          run_custom (custom schema) data path
            (push_all
               (required_forEach (case required schema of None \<Rightarrow> [] | Some ks \<Rightarrow> ks)
                  data path no_messages)
               children) w')"
  by (simp add: validateAgainstSchema.simps)

lemma validate_array:
  "anyOf schema = None \<Longrightarrow> type schema = Some ''array'' \<Longrightarrow> typeOf data = ''array'' \<Longrightarrow>
   validateAgainstSchema host data schema path w =
     (case items_forEach host (case items schema of None \<Rightarrow> empty_schema | Some s \<Rightarrow> s)
             (elementsOf data) path 0 w of
        (Inl e, w') \<Rightarrow> (Inl e, w')
      | (Inr children, w') \<Rightarrow>
          (Inr (minItems_check host (minItems schema) data path children), w'))"
  by (simp add: validateAgainstSchema.simps)

lemma validate_string:
  "anyOf schema = None \<Longrightarrow> type schema = Some ''string'' \<Longrightarrow> typeOf data = ''string'' \<Longrightarrow>
   validateAgainstSchema host data schema path w =
     (if truthy (pattern schema)
      then (case RegExp host (the (pattern schema)) of
              None \<Rightarrow> (Inl (SyntaxError (the (pattern schema))), w)
            | Some re \<Rightarrow>
                (Inr (if \<not> re (stringOf data)
                      then addE path (''String does not match pattern ''
                                      @ the (pattern schema) @ ''.'') no_messages
                      else no_messages), w))
      else (Inr no_messages, w))"
  by (simp add: validateAgainstSchema.simps)

lemma validate_other:
  "anyOf schema = None \<Longrightarrow> \<not> (truthy (type schema) \<and> type schema \<noteq> Some (typeOf data)) \<Longrightarrow>
   type schema \<noteq> Some ''object'' \<Longrightarrow> type schema \<noteq> Some ''array'' \<Longrightarrow>
   type schema \<noteq> Some ''string'' \<Longrightarrow>
   validateAgainstSchema host data schema path w = (Inr no_messages, w)"
  by (auto simp: validateAgainstSchema.simps Let_def)

lemma validate_empty_schema:
  "validateAgainstSchema host data empty_schema path w = (Inr \<lparr>errors = [], warnings = []\<rparr>, w)"
  by (simp add: validateAgainstSchema.simps empty_schema_def truthy_def no_messages_def)

section \<open>The type tag\<close>

text \<open>
  C5, as the code has it. \<open>typeOf\<close> maps \<^verbatim>\<open>null\<close> to the tag \<^verbatim>\<open>null\<close> and an array to
  \<^verbatim>\<open>array\<close>; every other value gets its \<^verbatim>\<open>typeof\<close> tag, and for an absent value
  (\<^verbatim>\<open>undefined\<close>) that tag is \<^verbatim>\<open>undefined\<close>: the test \<^verbatim>\<open>v === null\<close> is strict and does not
  catch it.
\<close>

theorem typeOf_tags:
  "typeOf JNull = ''null'' \<and> typeOf (JArray xs) = ''array'' \<and>
   typeOf JUndefined = ''undefined'' \<and> typeOf (JObject kvs) = ''object'' \<and>
   typeOf (JString s) = ''string'' \<and> typeOf (JNumber n) = ''number'' \<and>
   typeOf (JBoolean b) = ''boolean'' \<and> typeOf JFunction = ''function'' \<and>
   typeOf (JSymbol d) = ''symbol'' \<and> typeOf (JBigInt i) = ''bigint''"
  by (simp add: typeOf_def)

text \<open>C5 as stated fails: the tag of \<^verbatim>\<open>undefined\<close> is not \<^verbatim>\<open>null\<close>.\<close>

theorem typeOf_undefined_is_not_null:
  "typeOf JUndefined = ''undefined'' \<and> typeOf JUndefined \<noteq> ''null''"
  by (simp add: typeOf_def)

section \<open>The type test\<close>

text \<open>
  C3, as the code has it. When \<^verbatim>\<open>anyOf\<close> is absent and \<^verbatim>\<open>schema.type\<close> is set (a
  non-empty string, as the test \<^verbatim>\<open>schema.type && ...\<close> asks) and differs from the type tag
  of the data, the call returns exactly one error, the type-mismatch message, and no
  warning. Nothing else of the schema is looked at: the result is the same whatever
  \<^verbatim>\<open>properties\<close>, \<^verbatim>\<open>required\<close>, \<^verbatim>\<open>items\<close>, \<^verbatim>\<open>minItems\<close>, \<^verbatim>\<open>pattern\<close> and \<^verbatim>\<open>custom\<close>
  are, no pattern is compiled (the call cannot raise) and no hook runs (the world is
  returned unchanged).
\<close>

theorem type_mismatch_single_error:
  assumes "anyOf schema = None" and "type schema = Some ty" and "ty \<noteq> []"
    and "ty \<noteq> typeOf data"
  shows "validateAgainstSchema host data schema path w =
           (Inr \<lparr>errors = [prefixed path (''Expected type '' @ dquote @ ty @ dquote
                                           @ '' but got '' @ dquote @ typeOf data @ dquote
                                           @ ''.'')],
                  warnings = []\<rparr>, w)"
  using assms
  by (simp add: validateAgainstSchema.simps truthy_def result_eq_iff)

text \<open>
  An object schema with a required key, a property, a pattern that does not compile and
  a hook that would change the world, against the number 5.
\<close>

theorem type_mismatch_single_error_witness:
  "anyOf (Schema None (Some ''object'') (Some [(''a'', empty_schema)]) (Some [''a'']) None None
            (Some ''('') (Some counting_hook)) = None \<and>
   ''object'' \<noteq> typeOf (JNumber 5) \<and>
   validateAgainstSchema sample_host (JNumber 5)
     (Schema None (Some ''object'') (Some [(''a'', empty_schema)]) (Some [''a'']) None None
        (Some ''('') (Some counting_hook)) ''doc'' (0::nat) =
     (Inr \<lparr>errors = [''doc: Expected type '' @ dquote @ ''object'' @ dquote
                       @ '' but got '' @ dquote @ ''number'' @ dquote @ ''.''],
            warnings = []\<rparr>, 0)"
  using type_mismatch_single_error
    [of "Schema None (Some ''object'') (Some [(''a'', empty_schema)]) (Some [''a'']) None None
           (Some ''('') (Some counting_hook)" "''object''" "JNumber 5" sample_host "''doc''"
        "0::nat"]
  by (simp add: typeOf_def prefixed_def)

text \<open>
  C3 as stated fails when \<^verbatim>\<open>anyOf\<close> is present, because that rule returns before the type
  test: under \<^verbatim>\<open>{anyOf: [{}], type: "string"}\<close> the number 5, whose tag differs from the
  type that is set, gets no error at all.
\<close>

theorem anyOf_skips_type_test:
  "typeOf (JNumber 5) = ''number'' \<and>
   validateAgainstSchema sample_host (JNumber 5)
     (Schema (Some [empty_schema]) (Some ''string'') None None None None None None)
     [] (0::nat) = (Inr \<lparr>errors = [], warnings = []\<rparr>, 0)"
  by (simp add: validate_anyOf validate_empty_schema result_eq_iff typeOf_def)

section \<open>The anyOf rule\<close>

text \<open>The two nested \<^verbatim>\<open>forEach\<close> loops that turn the alternatives' errors into warnings.\<close>

lemma inner_addW:
  "foldl (\<lambda>acc e. addW path (f e) acc) r es =
     r\<lparr>warnings := warnings r @ map (\<lambda>e. prefixed path (f e)) es\<rparr>"
  by (induction es arbitrary: r) (simp_all add: addW_def)

lemma anyOf_warnings_from:
  "foldl (\<lambda>acc (i, res).
            foldl (\<lambda>acc' e.
                     addW path (''anyOf['' @ decimal i @ ''] '' @ arrow @ '' '' @ e) acc')
                  acc (errors res)) r ps =
   r\<lparr>warnings := warnings r @
        concat (map (\<lambda>(i, res).
                       map (\<lambda>e. prefixed path
                                   (''anyOf['' @ decimal i @ ''] '' @ arrow @ '' '' @ e))
                           (errors res)) ps)\<rparr>"
  by (induction ps arbitrary: r) (auto simp: inner_addW)

lemma anyOf_warnings_eq:
  "anyOf_warnings path results r =
   r\<lparr>warnings := warnings r @
        concat (map (\<lambda>(i, res).
                       map (\<lambda>e. prefixed path
                                   (''anyOf['' @ decimal i @ ''] '' @ arrow @ '' '' @ e))
                           (errors res)) (enumerate 0 results))\<rparr>"
  unfolding anyOf_warnings_def by (rule anyOf_warnings_from)







section \<open>Required keys\<close>

lemma required_forEach_eq:
  "required_forEach req data path r =
     r\<lparr>errors := errors r @
          map (\<lambda>k. prefixed path (''Missing required key '' @ dquote @ k @ dquote @ ''.''))
              (filter (\<lambda>k. \<not> js_in k data) req)\<rparr>"
  unfolding required_forEach_def
  by (induction req arbitrary: r) (simp_all add: addE_def)

lemma push_all_no_messages [simp]: "push_all no_messages r = r"
  by (cases r) (simp add: push_all_def no_messages_def)





text \<open>
  What the statement above leaves out: a required key that has the name of a member of
  \<^verbatim>\<open>Object.prototype\<close> is never reported missing. \<^verbatim>\<open>"constructor" in {}\<close> is true, because
  the \<^verbatim>\<open>in\<close> operator also finds what an object inherits.
\<close>

lemma inherited_name_never_missing:
  "validateAgainstSchema host (JObject [])
     (Schema None (Some ''object'') None (Some [''constructor'']) None None None None) path w =
     (Inr \<lparr>errors = [], warnings = []\<rparr>, w)"
  by (simp add: validateAgainstSchema.simps truthy_def typeOf_def required_forEach_def js_in_def
      Object_prototype_keys_def run_custom_def push_all_def no_messages_def entriesOf_def)

section \<open>The custom hook\<close>

text \<open>
  C4, as the code has it. Take an object schema without \<^verbatim>\<open>anyOf\<close> that has a hook, data
  that is an object, and let the structural checks (the same schema without the hook)
  return the result \<open>r0\<close> and leave the world \<open>w'\<close>; the hook is then called on the data in
  that world. If it returns a non-empty string, the call returns \<open>r0\<close> with that string,
  under the path prefix, appended to the errors. If it throws a value whose message can
  be read, the call does not raise: it returns \<open>r0\<close> with the error
  \<^verbatim>\<open>Custom validator threw: \<close> followed by the message appended. A hook that throws a
  value whose message cannot be read is left out of the statement.
\<close>

theorem custom_hook_message_or_throw:
  assumes "typeOf data = ''object''"
    and "validateAgainstSchema host data (Schema None (Some ''object'') ps req it mi pat None)
           path w = (Inr r0, w')"
  shows "(hook data w' = (Returns (JString m), w'') \<and> m \<noteq> [] \<longrightarrow>
            validateAgainstSchema host data
              (Schema None (Some ''object'') ps req it mi pat (Some hook)) path w =
              (Inr (r0\<lparr>errors := errors r0 @ [prefixed path m]\<rparr>), w''))
       \<and> (hook data w' = (Throws (Thrown msg), w'') \<longrightarrow>
            validateAgainstSchema host data
              (Schema None (Some ''object'') ps req it mi pat (Some hook)) path w =
              (Inr (r0\<lparr>errors := errors r0
                       @ [prefixed path (''Custom validator threw: '' @ msg)]\<rparr>), w''))"
proof -
  let ?props = "case ps of None \<Rightarrow> [] | Some ps \<Rightarrow> ps"
  let ?req = "case req of None \<Rightarrow> [] | Some ks \<Rightarrow> ks"
  obtain x y where el: "entries_loop host ?props (entriesOf data) path w = (x, y)" by force
  from assms(2) el obtain children where x: "x = Inr children"
    by (cases x) (auto simp: validate_object assms(1))
  let ?r = "push_all (required_forEach ?req data path no_messages) children"
  from assms(2) el x have r0: "r0 = ?r" and w': "w' = y"
    by (auto simp: validate_object assms(1) run_custom_def)
  show ?thesis
    using el x r0 w'
    by (auto simp: validate_object assms(1) run_custom_def stringOf_def addE_def)
qed

text \<open>
  An object without a name, under a schema that requires \<^verbatim>\<open>name\<close>, with a hook that asks
  for a name and with a hook that throws an error with the message \<^verbatim>\<open>boom\<close>.
\<close>

theorem custom_hook_message_or_throw_witness:
  "typeOf (JObject [(''id'', JNumber 7)]) = ''object'' \<and>
   validateAgainstSchema sample_host (JObject [(''id'', JNumber 7)])
     (Schema None (Some ''object'') None (Some [''name'']) None None None None) ''doc'' (0::nat) =
     (Inr \<lparr>errors = [''doc: Missing required key '' @ dquote @ ''name'' @ dquote @ ''.''],
            warnings = []\<rparr>, 0) \<and>
   name_hook (JObject [(''id'', JNumber 7)]) (0::nat) = (Returns (JString ''a name is needed''), 0) \<and>
   validateAgainstSchema sample_host (JObject [(''id'', JNumber 7)])
     (Schema None (Some ''object'') None (Some [''name'']) None None None (Some name_hook))
     ''doc'' (0::nat) =
     (Inr \<lparr>errors = [''doc: Missing required key '' @ dquote @ ''name'' @ dquote @ ''.'',
                      ''doc: a name is needed''],
            warnings = []\<rparr>, 0) \<and>
   throwing_hook (JObject [(''id'', JNumber 7)]) 0 = (Throws (Thrown ''boom''), 1) \<and>
   validateAgainstSchema sample_host (JObject [(''id'', JNumber 7)])
     (Schema None (Some ''object'') None (Some [''name'']) None None None (Some throwing_hook))
     ''doc'' 0 =
     (Inr \<lparr>errors = [''doc: Missing required key '' @ dquote @ ''name'' @ dquote @ ''.'',
                      ''doc: Custom validator threw: boom''],
            warnings = []\<rparr>, 1)"
proof -
  let ?d = "JObject [(''id'', JNumber 7)]"
  let ?r0 = "\<lparr>errors = [''doc: Missing required key '' @ dquote @ ''name'' @ dquote @ ''.''],
              warnings = []\<rparr>"
  have tag: "typeOf ?d = ''object''"
    by (simp add: typeOf_def)
  have plain: "validateAgainstSchema sample_host ?d
     (Schema None (Some ''object'') None (Some [''name'']) None None None None) ''doc'' (0::nat) =
     (Inr ?r0, 0)"
    by (simp add: validate_object tag entriesOf_def required_forEach_eq run_custom_def js_in_def
        Object_prototype_keys_def prefixed_def result_eq_iff)
  have h1: "name_hook ?d (0::nat) = (Returns (JString ''a name is needed''), 0)"
    by (simp add: name_hook_def entriesOf_def)
  have h2: "throwing_hook ?d 0 = (Throws (Thrown ''boom''), 1)"
    by (simp add: throwing_hook_def)
  from custom_hook_message_or_throw [OF tag plain, of name_hook "''a name is needed''" 0 "''x''"]
    custom_hook_message_or_throw [OF tag plain, of throwing_hook "''x''" 1 "''boom''"]
    tag plain h1 h2
  show ?thesis
    by (simp add: prefixed_def)
qed

text \<open>
  C4 as stated fails when \<^verbatim>\<open>anyOf\<close> is present, because that rule returns before the
  object rule: under \<^verbatim>\<open>{anyOf: [{}], type: "object", custom: hook}\<close> the hook is never
  called. The hook that asks for a name returns a non-empty string for \<^verbatim>\<open>{}\<close>, and it is
  not appended; with the hook that throws, no error is appended and the world, which a
  call of that hook would change, is returned as it was.
\<close>

theorem anyOf_skips_custom_hook:
  "name_hook (JObject []) (0::nat) = (Returns (JString ''a name is needed''), 0) \<and>
   validateAgainstSchema sample_host (JObject [])
     (Schema (Some [empty_schema]) (Some ''object'') None None None None None (Some name_hook))
     [] (0::nat) = (Inr \<lparr>errors = [], warnings = []\<rparr>, 0) \<and>
   throwing_hook (JObject []) 0 = (Throws (Thrown ''boom''), 1) \<and>
   validateAgainstSchema sample_host (JObject [])
     (Schema (Some [empty_schema]) (Some ''object'') None None None None None
        (Some throwing_hook))
     [] 0 = (Inr \<lparr>errors = [], warnings = []\<rparr>, 0)"
  by (simp add: validate_anyOf validate_empty_schema result_eq_iff name_hook_def
      throwing_hook_def entriesOf_def)

text \<open>
  What the statement above leaves out: when the hook throws a value whose message cannot
  be read (\<^verbatim>\<open>throw null\<close>), reading \<^verbatim>\<open>e.message\<close> raises inside the \<^verbatim>\<open>catch\<close> block, and
  the call raises instead of returning.
\<close>

lemma unreadable_throw_escapes:
  assumes "typeOf data = ''object''"
    and "validateAgainstSchema host data (Schema None (Some ''object'') ps req it mi pat None)
           path w = (Inr r0, w')"
    and "hook data w' = (Throws Thrown_unreadable, w'')"
  shows "\<exists>e. validateAgainstSchema host data
               (Schema None (Some ''object'') ps req it mi pat (Some hook)) path w = (Inl e, w'')"
proof -
  let ?props = "case ps of None \<Rightarrow> [] | Some ps \<Rightarrow> ps"
  obtain x y where el: "entries_loop host ?props (entriesOf data) path w = (x, y)" by force
  from assms(2) el obtain children where x: "x = Inr children"
    by (cases x) (auto simp: validate_object assms(1))
  from assms(2) el x have "w' = y"
    by (auto simp: validate_object assms(1) run_custom_def)
  with el x assms(3) show ?thesis
    by (auto simp: validate_object assms(1) run_custom_def)
qed

lemma throw_null_escapes:
  "\<exists>e. validateAgainstSchema sample_host (JObject [])
         (Schema None (Some ''object'') None None None None None (Some throwing_null_hook))
         [] 0 = (Inl e, 1)"
  by (simp add: validate_object typeOf_def entriesOf_def required_forEach_eq run_custom_def
      throwing_null_hook_def)

section \<open>The array rule\<close>





section \<open>Paths\<close>

lemma prefix_prefixed [simp]: "prefix path (prefixed path m)"
  by (simp add: prefixed_def)

lemma run_custom_messages:
  assumes "run_custom c data path r w = (Inr r', w')"
  shows "(\<forall>m \<in> set (errors r'). m \<in> set (errors r) \<or> prefix path m) \<and> warnings r' = warnings r"
  using assms
  by (auto simp: run_custom_def
      split: option.splits prod.splits hook_outcome.splits thrown.splits if_splits)

lemma minItems_check_messages:
  "(\<forall>m \<in> set (errors (minItems_check host n data path r)). m \<in> set (errors r) \<or> prefix path m)
   \<and> warnings (minItems_check host n data path r) = warnings r"
  by (auto simp: minItems_check_def split: option.splits)

lemma path_prefix_all:
  "\<forall>r w'. validateAgainstSchema host data schema path w = (Inr r, w') \<longrightarrow>
     (\<forall>m \<in> set (errors r) \<union> set (warnings r). prefix path m)"
  "\<forall>rs w'. anyOf_map host data alts path w = (Inr rs, w') \<longrightarrow>
     (\<forall>r \<in> set rs. \<forall>m \<in> set (errors r) \<union> set (warnings r). prefix path m)"
  "\<forall>r w'. entries_loop host props kvs path w = (Inr r, w') \<longrightarrow>
     (\<forall>m \<in> set (errors r) \<union> set (warnings r). prefix path m)"
  "\<forall>r w'. items_forEach host itemSchema xs path i w = (Inr r, w') \<longrightarrow>
     (\<forall>m \<in> set (errors r) \<union> set (warnings r). prefix path m)"
proof (induction host data schema path w and host data alts path w and host props kvs path w
    and host itemSchema xs path i w
    rule: validateAgainstSchema_anyOf_map_entries_loop_items_forEach.induct)
  case (1 host data schema path w)
  show ?case
  proof (intro allI impI)
    fix r w'
    assume run: "validateAgainstSchema host data schema path w = (Inr r, w')"
    show "\<forall>m \<in> set (errors r) \<union> set (warnings r). prefix path m"
    proof (cases "anyOf schema")
      case (Some alts)
      obtain x y where am: "anyOf_map host data alts path w = (x, y)" by force
      with run Some obtain results where x: "x = Inr results"
        by (cases x) (auto simp: validate_anyOf)
      have ih: "\<forall>r \<in> set results. \<forall>m \<in> set (errors r) \<union> set (warnings r). prefix path m"
        using "1.IH"(3)[OF Some] am x by blast
      show ?thesis
      proof (cases "list_ex (\<lambda>r. errors r = []) results")
        case False
        with run Some am x
        have "r = anyOf_warnings path results
                    (addE path ''Value must match one of the allowed shapes.'' no_messages)"
          by (simp add: validate_anyOf)
        then show ?thesis by (auto simp: anyOf_warnings_eq)
      next
        case True
        with run Some am x obtain firstOK
          where f: "find (\<lambda>r. errors r = []) results = Some firstOK"
            and r: "r = no_messages\<lparr>warnings := warnings firstOK\<rparr>"
          by (auto simp: validate_anyOf split: option.splits)
        from f have "firstOK \<in> set results"
          by (auto simp: find_Some_iff)
        with ih r show ?thesis by auto
      qed
    next
      case None
      show ?thesis
      proof (cases "truthy (type schema) \<and> type schema \<noteq> Some (typeOf data)")
        case True
        with run None show ?thesis
          by (auto simp: validate_mismatch)
      next
        case pass: False
        consider (obj) "type schema = Some ''object''" | (arr) "type schema = Some ''array''"
          | (str) "type schema = Some ''string''"
          | (other) "type schema \<noteq> Some ''object''" "type schema \<noteq> Some ''array''"
              "type schema \<noteq> Some ''string''"
          by blast
        then show ?thesis
        proof cases
          case obj
          with pass have tag: "typeOf data = ''object''" by (simp add: truthy_def)
          note unfold = validate_object[OF None obj tag, of host path w]
          obtain x y where el: "entries_loop host
              (case properties schema of None \<Rightarrow> [] | Some ps \<Rightarrow> ps) (entriesOf data) path w = (x, y)"
            by force
          with run unfold obtain children where x: "x = Inr children"
            by (cases x) auto
          have ih: "\<forall>m \<in> set (errors children) \<union> set (warnings children). prefix path m"
            using "1.IH"(1)[OF None refl pass obj] el x by blast
          from run unfold el x
          have rc: "run_custom (custom schema) data path
                 (push_all (required_forEach (case required schema of None \<Rightarrow> [] | Some ks \<Rightarrow> ks)
                              data path no_messages) children) y = (Inr r, w')"
            by auto
          from run_custom_messages[OF rc] ih show ?thesis
            by (auto simp: required_forEach_eq)
        next
          case arr
          with pass have tag: "typeOf data = ''array''" by (simp add: truthy_def)
          note unfold = validate_array[OF None arr tag, of host path w]
          have notobj: "type schema \<noteq> Some ''object''" using arr by simp
          obtain x y where el: "items_forEach host
              (case items schema of None \<Rightarrow> empty_schema | Some s \<Rightarrow> s) (elementsOf data) path 0 w
                = (x, y)"
            by force
          with run unfold obtain children where x: "x = Inr children"
            by (cases x) auto
          have ih: "\<forall>m \<in> set (errors children) \<union> set (warnings children). prefix path m"
            using "1.IH"(2)[OF None refl pass notobj arr] el x by blast
          from run unfold el x
          have "r = minItems_check host (minItems schema) data path children"
            by auto
          with minItems_check_messages[of host "minItems schema" data path children] ih
          show ?thesis by auto
        next
          case str
          with pass have tag: "typeOf data = ''string''" by (simp add: truthy_def)
          from run validate_string[OF None str tag, of host path w] show ?thesis
            by (auto split: option.splits if_splits)
        next
          case other
          from run validate_other[OF None pass other, of host path w] show ?thesis
            by auto
        qed
      qed
    qed
  qed
next
  case (2 host data path w)
  then show ?case by simp
next
  case (3 host data s rest path w)
  show ?case
  proof (intro allI impI)
    fix rs w'
    assume run: "anyOf_map host data (s # rest) path w = (Inr rs, w')"
    obtain x y where v: "validateAgainstSchema host data s path w = (x, y)" by force
    with run obtain r where x: "x = Inr r" by (cases x) auto
    obtain x' y' where am: "anyOf_map host data rest path y = (x', y')" by force
    with run v x obtain rs' where x': "x' = Inr rs'" by (cases x') auto
    from run v x am x' have rs: "rs = r # rs'" by simp
    have "\<forall>m \<in> set (errors r) \<union> set (warnings r). prefix path m"
      using "3.IH"(1) v x by blast
    moreover have "\<forall>r \<in> set rs'. \<forall>m \<in> set (errors r) \<union> set (warnings r). prefix path m"
      using "3.IH"(2)[OF v[symmetric] x] am x' by blast
    ultimately show "\<forall>r \<in> set rs. \<forall>m \<in> set (errors r) \<union> set (warnings r). prefix path m"
      by (simp add: rs)
  qed
next
  case (4 host props path w)
  then show ?case by simp
next
  case (5 host props k v rest path w)
  show ?case
  proof (intro allI impI)
    fix r w'
    assume run: "entries_loop host props ((k, v) # rest) path w = (Inr r, w')"
    show "\<forall>m \<in> set (errors r) \<union> set (warnings r). prefix path m"
    proof (cases "map_of props k")
      case None
      with run "5.IH"(1) show ?thesis by auto
    next
      case (Some childSchema)
      let ?p = "if path \<noteq> [] then path @ ''.'' @ k else k"
      obtain x y where c: "validateAgainstSchema host v childSchema ?p w = (x, y)" by force
      with run Some obtain r2 where x: "x = Inr r2" by (cases x) auto
      obtain x' y' where el: "entries_loop host props rest path y = (x', y')" by force
      with run Some c x obtain r' where x': "x' = Inr r'" by (cases x') auto
      from run Some c x el x' have r: "r = push_all r2 r'" by simp
      have "\<forall>m \<in> set (errors r2) \<union> set (warnings r2). prefix ?p m"
        using "5.IH"(2)[OF Some] c x by blast
      then have "\<forall>m \<in> set (errors r2) \<union> set (warnings r2). prefix path m"
        by (cases "path = []") (auto dest: append_prefixD)
      moreover have "\<forall>m \<in> set (errors r') \<union> set (warnings r'). prefix path m"
        using "5.IH"(3)[OF Some c[symmetric] x] el x' by blast
      ultimately show ?thesis by (auto simp: r)
    qed
  qed
next
  case (6 host itemSchema path i w)
  then show ?case by simp
next
  case (7 host itemSchema item rest path i w)
  show ?case
  proof (intro allI impI)
    fix r w'
    assume run: "items_forEach host itemSchema (item # rest) path i w = (Inr r, w')"
    let ?p = "path @ ''['' @ decimal i @ '']''"
    obtain x y where c: "validateAgainstSchema host item itemSchema ?p w = (x, y)" by force
    with run obtain r2 where x: "x = Inr r2" by (cases x) auto
    obtain x' y' where el: "items_forEach host itemSchema rest path (Suc i) y = (x', y')" by force
    with run c x obtain r' where x': "x' = Inr r'" by (cases x') auto
    from run c x el x' have r: "r = push_all r2 r'" by simp
    have "\<forall>m \<in> set (errors r2) \<union> set (warnings r2). prefix ?p m"
      using "7.IH"(1) c x by blast
    then have "\<forall>m \<in> set (errors r2) \<union> set (warnings r2). prefix path m"
      by (auto dest: append_prefixD)
    moreover have "\<forall>m \<in> set (errors r') \<union> set (warnings r'). prefix path m"
      using "7.IH"(2)[OF c[symmetric] x] el x' by blast
    ultimately show "\<forall>m \<in> set (errors r) \<union> set (warnings r). prefix path m"
      by (auto simp: r)
  qed
qed

text \<open>
  C10. When a call with a non-empty path returns, every error and every warning it
  returns begins with that path.
\<close>

theorem path_prefix_invariant:
  assumes "path \<noteq> []"
    and "validateAgainstSchema host data schema path w = (Inr r, w')"
  shows "\<forall>m \<in> set (errors r) \<union> set (warnings r). prefix path m"
  using path_prefix_all(1) [of host data schema path w] assms(2) by blast

text \<open>
  A document whose \<^verbatim>\<open>tags\<close> array holds \<^verbatim>\<open>true\<close> where a string or a number is asked for,
  validated under the path \<^verbatim>\<open>doc\<close>: three errors and two warnings, from three levels.
\<close>

theorem path_prefix_invariant_witness:
  "''doc'' \<noteq> [] \<and>
   validateAgainstSchema sample_host (JObject [(''tags'', JArray [JBoolean True])])
     (tags_schema :: nat schema) ''doc'' 0 =
     (Inr \<lparr>errors =
              [''doc: Missing required key '' @ dquote @ ''id'' @ dquote @ ''.'',
               ''doc.tags[0]: Value must match one of the allowed shapes.'',
               ''doc.tags: Array has 1 items; expected at least 2.''],
            warnings =
              [''doc.tags[0]: anyOf[0] '' @ arrow @ '' doc.tags[0]: Expected type '' @ dquote
               @ ''string'' @ dquote @ '' but got '' @ dquote @ ''boolean'' @ dquote @ ''.'',
               ''doc.tags[0]: anyOf[1] '' @ arrow @ '' doc.tags[0]: Expected type '' @ dquote
               @ ''number'' @ dquote @ '' but got '' @ dquote @ ''boolean'' @ dquote @ ''.'']\<rparr>,
      0) \<and>
   prefix ''doc'' (''doc: Missing required key '' @ dquote @ ''id'' @ dquote @ ''.'') \<and>
   prefix ''doc'' ''doc.tags[0]: Value must match one of the allowed shapes.'' \<and>
   prefix ''doc'' ''doc.tags: Array has 1 items; expected at least 2.'' \<and>
   prefix ''doc'' (''doc.tags[0]: anyOf[0] '' @ arrow @ '' doc.tags[0]: Expected type '' @ dquote
               @ ''string'' @ dquote @ '' but got '' @ dquote @ ''boolean'' @ dquote @ ''.'') \<and>
   prefix ''doc'' (''doc.tags[0]: anyOf[1] '' @ arrow @ '' doc.tags[0]: Expected type '' @ dquote
               @ ''number'' @ dquote @ '' but got '' @ dquote @ ''boolean'' @ dquote @ ''.'')"
proof -
  have ne: "''doc'' \<noteq> []" by simp
  have run: "validateAgainstSchema sample_host (JObject [(''tags'', JArray [JBoolean True])])
     (tags_schema :: nat schema) ''doc'' 0 =
     (Inr \<lparr>errors =
              [''doc: Missing required key '' @ dquote @ ''id'' @ dquote @ ''.'',
               ''doc.tags[0]: Value must match one of the allowed shapes.'',
               ''doc.tags: Array has 1 items; expected at least 2.''],
            warnings =
              [''doc.tags[0]: anyOf[0] '' @ arrow @ '' doc.tags[0]: Expected type '' @ dquote
               @ ''string'' @ dquote @ '' but got '' @ dquote @ ''boolean'' @ dquote @ ''.'',
               ''doc.tags[0]: anyOf[1] '' @ arrow @ '' doc.tags[0]: Expected type '' @ dquote
               @ ''number'' @ dquote @ '' but got '' @ dquote @ ''boolean'' @ dquote @ ''.'']\<rparr>,
      0)"
    by (simp add: validateAgainstSchema.simps tags_schema_def string_schema_def number_schema_def
        truthy_def typeOf_def entriesOf_def elementsOf_def required_forEach_eq run_custom_def
        js_in_def Object_prototype_keys_def minItems_check_def anyOf_warnings_eq prefixed_def
        decimal.simps decimal_int_def number_text_def sample_host_def result_eq_iff)
  from path_prefix_invariant [OF ne run] ne run show ?thesis
    by simp
qed

section \<open>No state of its own\<close>

lemma pure_hooks_anyOf: "pure_hooks s \<Longrightarrow> anyOf s = Some alts \<Longrightarrow> \<forall>a \<in> set alts. pure_hooks a"
  by (cases s) auto

lemma pure_hooks_properties:
  "pure_hooks s \<Longrightarrow>
   \<forall>c \<in> snd ` set (case properties s of None \<Rightarrow> [] | Some ps \<Rightarrow> ps). pure_hooks c"
  by (cases s) (auto split: option.splits)

lemma pure_hooks_empty [simp]: "pure_hooks empty_schema"
  by (simp add: empty_schema_def)

lemma pure_hooks_items:
  "pure_hooks s \<Longrightarrow> pure_hooks (case items s of None \<Rightarrow> empty_schema | Some i \<Rightarrow> i)"
  by (cases s) (auto split: option.splits)

lemma run_custom_pure:
  assumes "pure_hooks s"
  shows "run_custom (custom s) data path r w = (fst (run_custom (custom s) data path r v), w)"
proof (cases "custom s")
  case None
  then show ?thesis by (simp add: run_custom_def)
next
  case (Some h)
  with assms have "pure_hook h" by (cases s) auto
  then have "h data w = (fst (h data v), w)"
    unfolding pure_hook_def by blast
  then show ?thesis
    by (cases "h data v")
      (auto simp: run_custom_def Some split: hook_outcome.splits thrown.splits)
qed

lemma pure_all:
  "pure_hooks schema \<longrightarrow>
     (\<forall>v. validateAgainstSchema host data schema path w =
            (fst (validateAgainstSchema host data schema path v), w))"
  "(\<forall>a \<in> set alts. pure_hooks a) \<longrightarrow>
     (\<forall>v. anyOf_map host data alts path w = (fst (anyOf_map host data alts path v), w))"
  "(\<forall>c \<in> snd ` set props. pure_hooks c) \<longrightarrow>
     (\<forall>v. entries_loop host props kvs path w = (fst (entries_loop host props kvs path v), w))"
  "pure_hooks itemSchema \<longrightarrow>
     (\<forall>v. items_forEach host itemSchema xs path i w =
            (fst (items_forEach host itemSchema xs path i v), w))"
proof (induction host data schema path w and host data alts path w and host props kvs path w
    and host itemSchema xs path i w
    rule: validateAgainstSchema_anyOf_map_entries_loop_items_forEach.induct)
  case (1 host data schema path w)
  show ?case
  proof (intro impI allI)
    fix v
    assume pure: "pure_hooks schema"
    show "validateAgainstSchema host data schema path w =
            (fst (validateAgainstSchema host data schema path v), w)"
    proof (cases "anyOf schema")
      case (Some alts)
      have "anyOf_map host data alts path w = (fst (anyOf_map host data alts path v), w)"
        using "1.IH"(3)[OF Some] pure_hooks_anyOf[OF pure Some] by blast
      then show ?thesis
        by (cases "anyOf_map host data alts path v")
          (auto simp: validate_anyOf[OF Some] split: sum.splits option.splits)
    next
      case None
      show ?thesis
      proof (cases "truthy (type schema) \<and> type schema \<noteq> Some (typeOf data)")
        case True
        then show ?thesis by (simp add: validate_mismatch[OF None])
      next
        case pass: False
        consider (obj) "type schema = Some ''object''" | (arr) "type schema = Some ''array''"
          | (str) "type schema = Some ''string''"
          | (other) "type schema \<noteq> Some ''object''" "type schema \<noteq> Some ''array''"
              "type schema \<noteq> Some ''string''"
          by blast
        then show ?thesis
        proof cases
          case obj
          with pass have tag: "typeOf data = ''object''" by (simp add: truthy_def)
          let ?ps = "case properties schema of None \<Rightarrow> [] | Some ps \<Rightarrow> ps"
          have el: "entries_loop host ?ps (entriesOf data) path w =
                  (fst (entries_loop host ?ps (entriesOf data) path v), w)"
            using "1.IH"(1)[OF None refl pass obj] pure_hooks_properties[OF pure] by blast
          show ?thesis
          proof (cases "entries_loop host ?ps (entriesOf data) path v")
            case (Pair x y)
            show ?thesis
            proof (cases x)
              case (Inl e)
              with Pair el show ?thesis by (simp add: validate_object[OF None obj tag])
            next
              case (Inr children)
              let ?r = "push_all (required_forEach
                          (case required schema of None \<Rightarrow> [] | Some ks \<Rightarrow> ks)
                          data path no_messages) children"
              from run_custom_pure[OF pure, of data path ?r w y] Inr Pair el
              show ?thesis
                by (simp add: validate_object[OF None obj tag] split: prod.splits)
            qed
          qed
        next
          case arr
          with pass have tag: "typeOf data = ''array''" by (simp add: truthy_def)
          have notobj: "type schema \<noteq> Some ''object''" using arr by simp
          let ?s = "case items schema of None \<Rightarrow> empty_schema | Some s \<Rightarrow> s"
          have "items_forEach host ?s (elementsOf data) path 0 w =
                  (fst (items_forEach host ?s (elementsOf data) path 0 v), w)"
            using "1.IH"(2)[OF None refl pass notobj arr] pure_hooks_items[OF pure] by blast
          then show ?thesis
            by (cases "items_forEach host ?s (elementsOf data) path 0 v")
              (auto simp: validate_array[OF None arr tag] split: sum.splits)
        next
          case str
          with pass have tag: "typeOf data = ''string''" by (simp add: truthy_def)
          show ?thesis
            by (simp add: validate_string[OF None str tag] split: option.splits)
        next
          case other
          show ?thesis by (simp add: validate_other[OF None pass other])
        qed
      qed
    qed
  qed
next
  case (2 host data path w)
  then show ?case by simp
next
  case (3 host data s rest path w)
  show ?case
  proof (intro impI allI)
    fix v
    assume pure: "\<forall>a \<in> set (s # rest). pure_hooks a"
    have hd: "validateAgainstSchema host data s path w =
                (fst (validateAgainstSchema host data s path v), w)"
      using "3.IH"(1) pure by simp
    show "anyOf_map host data (s # rest) path w = (fst (anyOf_map host data (s # rest) path v), w)"
    proof (cases "validateAgainstSchema host data s path v")
      case (Pair x y)
      show ?thesis
      proof (cases x)
        case (Inl e)
        with Pair hd show ?thesis by simp
      next
        case (Inr r)
        with Pair hd have "(x, w) = validateAgainstSchema host data s path w" by simp
        from "3.IH"(2)[OF this Inr] pure
        have "anyOf_map host data rest path w = (fst (anyOf_map host data rest path y), w)"
          by simp
        with Pair Inr hd show ?thesis
          by (cases "anyOf_map host data rest path y") (auto split: sum.splits)
      qed
    qed
  qed
next
  case (4 host props path w)
  then show ?case by simp
next
  case (5 host props k d rest path w)
  show ?case
  proof (intro impI allI)
    fix v
    assume pure: "\<forall>c \<in> snd ` set props. pure_hooks c"
    show "entries_loop host props ((k, d) # rest) path w =
            (fst (entries_loop host props ((k, d) # rest) path v), w)"
    proof (cases "map_of props k")
      case None
      with "5.IH"(1) pure show ?thesis by simp
    next
      case (Some childSchema)
      let ?p = "if path \<noteq> [] then path @ ''.'' @ k else k"
      from Some have "childSchema \<in> snd ` set props"
        by (metis map_of_SomeD snd_conv image_eqI)
      with pure have pc: "pure_hooks childSchema" by blast
      have hd: "validateAgainstSchema host d childSchema ?p w =
                  (fst (validateAgainstSchema host d childSchema ?p v), w)"
        using "5.IH"(2)[OF Some] pc by blast
      show ?thesis
      proof (cases "validateAgainstSchema host d childSchema ?p v")
        case (Pair x y)
        show ?thesis
        proof (cases x)
          case (Inl e)
          with Pair hd Some show ?thesis by simp
        next
          case (Inr r2)
          with Pair hd have "(x, w) = validateAgainstSchema host d childSchema ?p w" by simp
          from "5.IH"(3)[OF Some this Inr] pure
          have "entries_loop host props rest path w = (fst (entries_loop host props rest path y), w)"
            by blast
          with Pair Inr hd Some show ?thesis
            by (cases "entries_loop host props rest path y") (auto split: sum.splits)
        qed
      qed
    qed
  qed
next
  case (6 host itemSchema path i w)
  then show ?case by simp
next
  case (7 host itemSchema item rest path i w)
  show ?case
  proof (intro impI allI)
    fix v
    assume pure: "pure_hooks itemSchema"
    let ?p = "path @ ''['' @ decimal i @ '']''"
    have hd: "validateAgainstSchema host item itemSchema ?p w =
                (fst (validateAgainstSchema host item itemSchema ?p v), w)"
      using "7.IH"(1) pure by blast
    show "items_forEach host itemSchema (item # rest) path i w =
            (fst (items_forEach host itemSchema (item # rest) path i v), w)"
    proof (cases "validateAgainstSchema host item itemSchema ?p v")
      case (Pair x y)
      show ?thesis
      proof (cases x)
        case (Inl e)
        with Pair hd show ?thesis by simp
      next
        case (Inr r2)
        with Pair hd have "(x, w) = validateAgainstSchema host item itemSchema ?p w" by simp
        from "7.IH"(2)[OF this Inr] pure
        have "items_forEach host itemSchema rest path (Suc i) w =
                (fst (items_forEach host itemSchema rest path (Suc i) y), w)"
          by blast
        with Pair Inr hd show ?thesis
          by (cases "items_forEach host itemSchema rest path (Suc i) y") (auto split: sum.splits)
      qed
    qed
  qed
qed

text \<open>
  C9, as the code has it. The validator keeps no state of its own: if every hook in the
  schema is pure (its outcome depends on the data alone and it has no side effect), a call
  returns the same outcome (the same errors and warnings, or the same raise) in whatever
  world it runs, and leaves that world as it found it. So two invocations with the same
  arguments return identical sequences.
\<close>

theorem pure_hooks_deterministic:
  assumes "pure_hooks schema"
  shows "validateAgainstSchema host data schema path w =
           (fst (validateAgainstSchema host data schema path v), w)"
  using pure_all(1) [of schema host data path w] assms by blast

text \<open>The hook that asks for a name, run in two different worlds.\<close>

theorem pure_hooks_deterministic_witness:
  "pure_hooks (Schema None (Some ''object'') None None None None None (Some name_hook)
                :: nat schema) \<and>
   validateAgainstSchema sample_host (JObject [(''id'', JNumber 7)])
     (Schema None (Some ''object'') None None None None None (Some name_hook)) ''doc'' (0::nat) =
     (Inr \<lparr>errors = [''doc: a name is needed''], warnings = []\<rparr>, 0) \<and>
   validateAgainstSchema sample_host (JObject [(''id'', JNumber 7)])
     (Schema None (Some ''object'') None None None None None (Some name_hook)) ''doc'' (5::nat) =
     (Inr \<lparr>errors = [''doc: a name is needed''], warnings = []\<rparr>, 5)"
proof -
  let ?s = "Schema None (Some ''object'') None None None None None (Some name_hook) :: nat schema"
  let ?d = "JObject [(''id'', JNumber 7)]"
  have pure: "pure_hooks ?s"
    by (simp add: pure_hook_def name_hook_def)
  have first: "validateAgainstSchema sample_host ?d ?s ''doc'' (0::nat) =
     (Inr \<lparr>errors = [''doc: a name is needed''], warnings = []\<rparr>, 0)"
    by (simp add: validate_object typeOf_def entriesOf_def required_forEach_eq run_custom_def
        name_hook_def stringOf_def prefixed_def result_eq_iff)
  from pure_hooks_deterministic [OF pure, of sample_host ?d "''doc''" 5 0] first
  have "validateAgainstSchema sample_host ?d ?s ''doc'' (5::nat) =
     (Inr \<lparr>errors = [''doc: a name is needed''], warnings = []\<rparr>, 5)"
    by simp
  with pure first show ?thesis by simp
qed

text \<open>
  C9 as stated fails for a schema whose hook keeps state: with the hook that counts its
  calls, the first invocation returns no error and the second, with the same arguments,
  returns one.
\<close>

theorem stateful_hook_second_call_differs:
  "validateAgainstSchema sample_host (JObject [])
     (Schema None (Some ''object'') None None None None None (Some counting_hook)) [] 0 =
     (Inr \<lparr>errors = [], warnings = []\<rparr>, 1) \<and>
   validateAgainstSchema sample_host (JObject [])
     (Schema None (Some ''object'') None None None None None (Some counting_hook)) [] 1 =
     (Inr \<lparr>errors = [''seen before''], warnings = []\<rparr>, 2)"
  by (simp add: validate_object typeOf_def entriesOf_def required_forEach_eq run_custom_def
      counting_hook_def stringOf_def prefixed_def result_eq_iff)

section \<open>The orchestrator\<close>

lemma render_calls_append [simp]: "render_calls (xs @ ys) = render_calls xs @ render_calls ys"
  by (induction xs rule: render_calls.induct) auto

lemma render_calls_panel [simp]: "render_calls (showValidationPanel f es ws) = []"
  by (simp add: showValidationPanel_def)

lemma render_calls_set_mount [simp]: "render_calls (set_mount g m h) = []"
  by (simp add: set_mount_def)

lemma render_calls_on_failure [simp]: "render_calls (on_failure g u m e) = []"
  by (simp add: on_failure_def)

text \<open>
  C1. When the fetch succeeds (a response whose \<^verbatim>\<open>ok\<close> flag is set) and the body decodes
  as JSON, the render callback is called exactly once, with the decoded value, if the
  schema matcher returns a result without errors, and is not called at all if it returns
  errors (or raises).
\<close>

theorem render_iff_no_errors:
  assumes "fetch url = Inr res" and "ok res" and "json res = Inr decoded"
  shows "render_calls (fst (validateAndRender host fetch getElementById url schema
                              mountOnErrorId render w)) =
           (case fst (validateAgainstSchema host decoded schema (strip_json url) w) of
              Inl e \<Rightarrow> []
            | Inr r \<Rightarrow> if errors r = [] then [decoded] else [])"
  using assms
  by (auto simp: validateAndRender_def split: prod.splits sum.splits option.splits)

text \<open>
  The document \<^verbatim>\<open>{"name": "Ann"}\<close> is rendered under a schema that requires \<^verbatim>\<open>name\<close>, and
  is not under one that requires \<^verbatim>\<open>id\<close>.
\<close>

theorem render_iff_no_errors_witness:
  "sample_fetch ''data/team.json'' = Inr (Response True 200 (Inr (JObject [(''name'', JString ''Ann'')]))) \<and>
   render_calls (fst (validateAndRender sample_host sample_fetch no_element ''data/team.json''
       (Schema None (Some ''object'') None (Some [''name'']) None None None None) None sample_render 0))
     = [JObject [(''name'', JString ''Ann'')]] \<and>
   render_calls (fst (validateAndRender sample_host sample_fetch no_element ''data/team.json''
       (Schema None (Some ''object'') None (Some [''id'']) None None None None) None sample_render 0))
     = []"
  using render_iff_no_errors [of sample_fetch "''data/team.json''"
      "Response True 200 (Inr (JObject [(''name'', JString ''Ann'')]))"
      "JObject [(''name'', JString ''Ann'')]" sample_host no_element
      "Schema None (Some ''object'') None (Some [''name'']) None None None None" None sample_render 0]
    render_iff_no_errors [of sample_fetch "''data/team.json''"
      "Response True 200 (Inr (JObject [(''name'', JString ''Ann'')]))"
      "JObject [(''name'', JString ''Ann'')]" sample_host no_element
      "Schema None (Some ''object'') None (Some [''id'']) None None None None" None sample_render 0]
  by (simp add: sample_fetch_def validateAgainstSchema.simps truthy_def typeOf_def
      required_forEach_def js_in_def Object_prototype_keys_def run_custom_def entriesOf_def
      strip_json_def)

end
